theory Spec2Isabelle
  imports Main
begin

section \<open>Flow-log tagging: a model of \<open>main.py\<close>\<close>

text \<open>
  The program reads two reference tables (CSV), streams a flow log line by line,
  counts tags and port/protocol pairs in two insertion-ordered dictionaries and writes
  a text report. The model follows the source function by function.

  Strings are \<open>string\<close> (lists of \<open>char\<close>); a \<open>char\<close> stands for the Unicode code point
  of the same number, so the model covers text whose code points are below 256. On that
  range \<open>str.split\<close>, \<open>str.strip\<close> and \<open>str.lower\<close> work character by character as
  defined below. Counts are Python's unbounded integers, \<open>int\<close>.
\<close>

subsection \<open>Python strings\<close>

text \<open>
  The characters \<open>str.split()\<close> and \<open>str.strip()\<close> treat as whitespace: U+0009 to U+000D,
  U+001C to U+0020, U+0085 and U+00A0.
\<close>

definition isspace :: "char \<Rightarrow> bool" where
  "isspace c =
     (let n = (of_char c :: nat)
      in (9 \<le> n \<and> n \<le> 13) \<or> (28 \<le> n \<and> n \<le> 32) \<or> n = 133 \<or> n = 160)"

text \<open>
  \<open>str.lower()\<close> on one character: the upper-case letters below U+0100 are A to Z,
  U+00C0 to U+00D6 and U+00D8 to U+00DE, and each has its lower-case form 32 places up.
\<close>

definition lower_char :: "char \<Rightarrow> char" where
  "lower_char c =
     (let n = (of_char c :: nat)
      in if (65 \<le> n \<and> n \<le> 90) \<or> (192 \<le> n \<and> n \<le> 214) \<or> (216 \<le> n \<and> n \<le> 222)
         then char_of (n + 32) else c)"

definition str_lower :: "string \<Rightarrow> string" where
  "str_lower s = map lower_char s"

definition str_strip :: "string \<Rightarrow> string" where
  "str_strip s = rev (dropWhile isspace (rev (dropWhile isspace s)))"

text \<open>
  \<open>str.split()\<close> without arguments scans the string once: whitespace ends the field being
  collected (if any), every other character extends it. \<open>cur\<close> is the field collected so
  far, last character first.
\<close>

fun split_scan :: "string \<Rightarrow> string \<Rightarrow> string list" where
  "split_scan cur [] = (if cur = [] then [] else [rev cur])"
| "split_scan cur (c # cs) =
     (if isspace c
      then (if cur = [] then split_scan [] cs else rev cur # split_scan [] cs)
      else split_scan (c # cur) cs)"

definition str_split :: "string \<Rightarrow> string list" where
  "str_split s = split_scan [] s"

text \<open>\<open>str(n)\<close> and \<open>f"{n}"\<close> for an integer: decimal digits, a minus sign when negative.\<close>

definition digit_char :: "nat \<Rightarrow> char" where
  "digit_char d = ''0123456789'' ! d"

fun str_nat :: "nat \<Rightarrow> string" where
  "str_nat n = (if n < 10 then [digit_char n] else str_nat (n div 10) @ [digit_char (n mod 10)])"

declare str_nat.simps [simp del]

definition str_int :: "int \<Rightarrow> string" where
  "str_int i = (if i < 0 then CHR ''-'' # str_nat (nat (- i)) else str_nat (nat i))"

subsection \<open>Errors\<close>

text \<open>
  The exceptions the program can raise become values: a function that can raise returns
  \<open>error + 'a\<close>, with \<open>Inl\<close> for the exception.
\<close>

datatype error =
  FileNotFoundError string | KeyError string | IndexError | AttributeError | CsvError

subsection \<open>Dictionaries\<close>

text \<open>
  A Python \<open>dict\<close> keeps its keys in insertion order and the report is written in that
  order, so a dictionary is an association list. \<open>d[k] = v\<close> overwrites the value of an
  existing key in place and appends a new key at the end.
\<close>

type_synonym ('k, 'v) dict = "('k \<times> 'v) list"

fun dict_set :: "('k, 'v) dict \<Rightarrow> 'k \<Rightarrow> 'v \<Rightarrow> ('k, 'v) dict" where
  "dict_set [] k v = [(k, v)]"
| "dict_set ((k', v') # d) k v = (if k' = k then (k, v) # d else (k', v') # dict_set d k v)"

text \<open>\<open>d.get(k, default)\<close>.\<close>

definition dict_get :: "('k, 'v) dict \<Rightarrow> 'k \<Rightarrow> 'v \<Rightarrow> 'v" where
  "dict_get d k dflt = (case map_of d k of None \<Rightarrow> dflt | Some v \<Rightarrow> v)"

text \<open>\<open>d[k]\<close> on a plain dictionary with string keys raises \<open>KeyError\<close> on a missing key.\<close>

definition dict_getitem :: "(string, 'v) dict \<Rightarrow> string \<Rightarrow> error + 'v" where
  "dict_getitem d k = (case map_of d k of None \<Rightarrow> Inl (KeyError k) | Some v \<Rightarrow> Inr v)"

text \<open>\<open>xs[i]\<close> for an index that is not negative raises \<open>IndexError\<close> beyond the end.\<close>

definition list_getitem :: "'a list \<Rightarrow> nat \<Rightarrow> error + 'a" where
  "list_getitem xs i = (if i < length xs then Inr (xs ! i) else Inl IndexError)"

definition bind_result :: "error + 'a \<Rightarrow> ('a \<Rightarrow> error + 'b) \<Rightarrow> error + 'b" where
  "bind_result r f = (case r of Inl e \<Rightarrow> Inl e | Inr x \<Rightarrow> f x)"

text \<open>
  \<open>defaultdict(int)\<close>: reading a missing key inserts it with value 0 and returns 0.
  \<open>d[k] += 1\<close> is that read followed by the store of the sum.
\<close>

definition defaultdict_getitem :: "('k, int) dict \<Rightarrow> 'k \<Rightarrow> int \<times> ('k, int) dict" where
  "defaultdict_getitem d k =
     (case map_of d k of None \<Rightarrow> (0, dict_set d k 0) | Some v \<Rightarrow> (v, d))"

definition increment :: "('k, int) dict \<Rightarrow> 'k \<Rightarrow> ('k, int) dict" where
  "increment d k = (case defaultdict_getitem d k of (v, d') \<Rightarrow> dict_set d' k (v + 1))"

subsection \<open>Files\<close>

text \<open>
  A file system maps a path to the text of the file. Opening a path that is not there
  for reading raises \<open>FileNotFoundError\<close>; opening for writing creates or truncates the
  file. Text is read with universal newlines and written as it is (the line end is
  \<open>\n\<close>, as on POSIX systems).
\<close>

type_synonym fs = "string \<Rightarrow> string option"

definition open_read :: "fs \<Rightarrow> string \<Rightarrow> error + string" where
  "open_read files path =
     (case files path of None \<Rightarrow> Inl (FileNotFoundError path) | Some text \<Rightarrow> Inr text)"

text \<open>
  Universal newlines: \<open>\r\n\<close> and a lone \<open>\r\<close> are read as \<open>\n\<close>.
\<close>

fun universal_newlines :: "string \<Rightarrow> string" where
  "universal_newlines [] = []"
| "universal_newlines [c] = (if c = CHR 0x0D then [CHR 0x0A] else [c])"
| "universal_newlines (c # c' # cs) =
     (if c = CHR 0x0D
      then (if c' = CHR 0x0A then CHR 0x0A # universal_newlines cs
            else CHR 0x0A # universal_newlines (c' # cs))
      else c # universal_newlines (c' # cs))"

text \<open>
  Iterating over a text file yields its lines, each with its \<open>\n\<close>; a last line without
  one is yielded as it is. \<open>cur\<close> is the line collected so far, last character first.
\<close>

fun lines_scan :: "string \<Rightarrow> string \<Rightarrow> string list" where
  "lines_scan cur [] = (if cur = [] then [] else [rev cur])"
| "lines_scan cur (c # cs) =
     (if c = CHR 0x0A then rev (c # cur) # lines_scan [] cs else lines_scan (c # cur) cs)"

definition file_lines :: "string \<Rightarrow> string list" where
  "file_lines text = lines_scan [] (universal_newlines text)"

subsection \<open>The flow record classifier\<close>

definition LOG_COLUMN_MAP :: "(string, nat) dict" where
  "LOG_COLUMN_MAP =
     [(''version'', 0), (''account_id'', 1), (''interface_id'', 2), (''src_addr'', 3),
      (''dst_addr'', 4), (''dstport'', 5), (''srcport'', 6), (''protocol'', 7),
      (''packets'', 8), (''bytes'', 9), (''start'', 10), (''end'', 11), (''action'', 12),
      (''log_status'', 13)]"

type_synonym protocol_map = "(string, string) dict"
type_synonym lookup_dict = "(string \<times> string, string) dict"
type_synonym tag_counts = "(string, int) dict"
type_synonym port_protocol_counts = "(string \<times> string, int) dict"

text \<open>
  The body of the loop of \<open>parse_flow_logs\<close>: one line, the two counters before and
  after. A line whose number of fields differs from the number of log columns is passed
  over (\<open>continue\<close>).
\<close>

definition parse_line ::
  "lookup_dict \<Rightarrow> protocol_map \<Rightarrow> string \<Rightarrow> tag_counts \<times> port_protocol_counts
     \<Rightarrow> error + tag_counts \<times> port_protocol_counts" where
  "parse_line lookup_dict protocol_mapping line counts =
     (let columns = str_split line
      in if length columns \<noteq> length LOG_COLUMN_MAP then Inr counts
         else
           bind_result (dict_getitem LOG_COLUMN_MAP ''dstport'') (\<lambda>i.
           bind_result (list_getitem columns i) (\<lambda>dstport.
           bind_result (dict_getitem LOG_COLUMN_MAP ''protocol'') (\<lambda>j.
           bind_result (list_getitem columns j) (\<lambda>protocol_number.
             let protocol = str_lower (dict_get protocol_mapping protocol_number ''Undefined'');
                 tag = dict_get lookup_dict (dstport, protocol) ''Untagged''
             in Inr (increment (fst counts) tag,
                     increment (snd counts) (dstport, protocol)))))))"

fun parse_lines ::
  "lookup_dict \<Rightarrow> protocol_map \<Rightarrow> string list \<Rightarrow> tag_counts \<times> port_protocol_counts
     \<Rightarrow> error + tag_counts \<times> port_protocol_counts" where
  "parse_lines lookup_dict protocol_mapping [] counts = Inr counts"
| "parse_lines lookup_dict protocol_mapping (line # ls) counts =
     bind_result (parse_line lookup_dict protocol_mapping line counts)
       (parse_lines lookup_dict protocol_mapping ls)"

definition parse_flow_logs ::
  "fs \<Rightarrow> string \<Rightarrow> lookup_dict \<Rightarrow> protocol_map
     \<Rightarrow> error + tag_counts \<times> port_protocol_counts" where
  "parse_flow_logs files flow_log_file lookup_dict protocol_mapping =
     bind_result (open_read files flow_log_file)
       (\<lambda>text. parse_lines lookup_dict protocol_mapping (file_lines text) ([], []))"

subsection \<open>The reference tables\<close>

text \<open>
  \<open>csv.reader\<close> belongs to Python's library; the loaders take it as the parameter
  \<open>reader\<close>. It yields the rows of the text one at a time, each a list of fields, and
  may raise an exception of its own on the way (\<open>csv.Error\<close>, for a field longer than the
  field size limit): \<open>reader text\<close> is the list of the rows it yields and the exception
  that ends them, if any. A loader has consumed every row yielded before that exception
  reaches it.
  \<open>csv.DictReader\<close> takes the first row as the field names, passes over empty rows and
  turns every other row into a dictionary from field name to field. A row shorter than
  the field names has \<open>None\<close> for the names left over. (The fields of a longer row go
  under the key \<open>None\<close>, which no loader reads; the model leaves that entry out.)
\<close>

type_synonym csv_reader = "string \<Rightarrow> string list list \<times> error option"

type_synonym csv_row = "(string, string option) dict"

definition dict_zip :: "string list \<Rightarrow> string list \<Rightarrow> csv_row" where
  "dict_zip fieldnames row = fold (\<lambda>(key, field) d. dict_set d key (Some field)) (zip fieldnames row) []"

definition DictReader_row :: "string list \<Rightarrow> string list \<Rightarrow> csv_row" where
  "DictReader_row fieldnames row =
     (let d = dict_zip fieldnames row
      in if length row < length fieldnames
         then fold (\<lambda>key d. dict_set d key None) (drop (length row) fieldnames) d
         else d)"

definition DictReader :: "string list list \<Rightarrow> csv_row list" where
  "DictReader rows =
     (case rows of
        [] \<Rightarrow> []
      | fieldnames # rest \<Rightarrow> map (DictReader_row fieldnames) (filter (\<lambda>row. row \<noteq> []) rest))"

text \<open>\<open>.strip()\<close> on a field of a row: \<open>None\<close> has no such attribute.\<close>

definition field_strip :: "string option \<Rightarrow> error + string" where
  "field_strip field = (case field of None \<Rightarrow> Inl AttributeError | Some s \<Rightarrow> Inr (str_strip s))"

fun load_protocol_mapping_rows :: "csv_row list \<Rightarrow> protocol_map \<Rightarrow> error + protocol_map" where
  "load_protocol_mapping_rows [] protocol_map = Inr protocol_map"
| "load_protocol_mapping_rows (row # rows) protocol_map =
     bind_result (dict_getitem row ''Decimal'') (\<lambda>decimal.
     bind_result (field_strip decimal) (\<lambda>protocol_number.
     bind_result (dict_getitem row ''Keyword'') (\<lambda>keyword.
     bind_result (field_strip keyword) (\<lambda>protocol_name.
       load_protocol_mapping_rows rows (dict_set protocol_map protocol_number protocol_name)))))"

text \<open>The end of the loop over the rows: the exception of the reader, if it raised one.\<close>

definition reader_end :: "error option \<Rightarrow> 'a \<Rightarrow> error + 'a" where
  "reader_end failure result = (case failure of None \<Rightarrow> Inr result | Some e \<Rightarrow> Inl e)"

definition load_protocol_mapping :: "csv_reader \<Rightarrow> fs \<Rightarrow> string \<Rightarrow> error + protocol_map" where
  "load_protocol_mapping reader files csv_file =
     bind_result (open_read files csv_file)
       (\<lambda>text. case reader text of
                 (rows, failure) \<Rightarrow>
                   bind_result (load_protocol_mapping_rows (DictReader rows) [])
                     (reader_end failure))"

text \<open>
  The lookup loader also prints every row to the standard output; the output stream is
  not part of the model.
\<close>

fun load_lookup_table_rows :: "csv_row list \<Rightarrow> lookup_dict \<Rightarrow> error + lookup_dict" where
  "load_lookup_table_rows [] lookup_dict = Inr lookup_dict"
| "load_lookup_table_rows (row # rows) lookup_dict =
     bind_result (dict_getitem row ''dstport'') (\<lambda>dstport.
     bind_result (field_strip dstport) (\<lambda>port.
     bind_result (dict_getitem row ''protocol'') (\<lambda>protocol.
     bind_result (field_strip protocol) (\<lambda>protocol_name.
     bind_result (dict_getitem row ''tag'') (\<lambda>tag.
     bind_result (field_strip tag) (\<lambda>tag_name.
       load_lookup_table_rows rows
         (dict_set lookup_dict (port, str_lower protocol_name) tag_name)))))))"

definition load_lookup_table :: "csv_reader \<Rightarrow> fs \<Rightarrow> string \<Rightarrow> error + lookup_dict" where
  "load_lookup_table reader files lookup_file =
     bind_result (open_read files lookup_file)
       (\<lambda>text. case reader text of
                 (rows, failure) \<Rightarrow>
                   bind_result (load_lookup_table_rows (DictReader rows) [])
                     (reader_end failure))"

subsection \<open>The report writer\<close>

text \<open>
  \<open>file.write(s)\<close> appends \<open>s\<close> to what the file holds; the file starts empty (mode
  \<open>'w'\<close>) and its final text is stored under the path. Creating the file is taken to
  succeed: directories and permissions are not part of the file system of the model.
\<close>

definition write_output :: "tag_counts \<Rightarrow> port_protocol_counts \<Rightarrow> string \<Rightarrow> fs \<Rightarrow> fs" where
  "write_output tag_counts port_protocol_counts output_file files =
     (let file0 = [];
          file1 = file0 @ ''Tag Counts:\<newline>Tag,Count\<newline>'';
          file2 = fold (\<lambda>(tag, count) file. file @ tag @ '','' @ str_int count @ ''\<newline>'')
                    tag_counts file1;
          file3 = file2 @ ''\<newline>Port/Protocol Combination Counts:\<newline>Port,Protocol,Count\<newline>'';
          file4 = fold (\<lambda>((port, protocol), count) file.
                          file @ port @ '','' @ protocol @ '','' @ str_int count @ ''\<newline>'')
                    port_protocol_counts file3
      in files(output_file \<mapsto> file4))"

subsection \<open>The pipeline\<close>

definition main :: "csv_reader \<Rightarrow> fs \<Rightarrow> error + fs" where
  "main reader files =
     bind_result (load_protocol_mapping reader files ''inputfiles/protocol_number_mapping.csv'')
       (\<lambda>protocol_mapping.
          let lookup_file = ''inputfiles/lookup_table_refer.csv'';
              flow_log_file = ''inputfiles/flow_log_data.txt'';
              output_file = ''outputfiles/output_counts.txt''
          in bind_result (load_lookup_table reader files lookup_file) (\<lambda>lookup_dict.
             bind_result (parse_flow_logs files flow_log_file lookup_dict protocol_mapping)
               (\<lambda>(tag_counts, port_protocol_counts).
                  Inr (write_output tag_counts port_protocol_counts output_file files))))"

subsection \<open>Sample inputs\<close>

text \<open>
  For text without the quote character, and with no field beyond the field size limit,
  \<open>csv.reader\<close> raises nothing and yields one row per line, the fields being the pieces
  between commas, and the empty row for an empty line. The sample tables below are read
  with it.
\<close>

fun fields_scan :: "string \<Rightarrow> string \<Rightarrow> string list" where
  "fields_scan cur [] = [rev cur]"
| "fields_scan cur (c # cs) =
     (if c = CHR '','' then rev cur # fields_scan [] cs else fields_scan (c # cur) cs)"

definition plain_reader :: csv_reader where
  "plain_reader text =
     (map (\<lambda>line. let l = filter (\<lambda>c. c \<noteq> CHR 0x0A) line
                 in if l = [] then [] else fields_scan [] l)
        (file_lines text),
      None)"

text \<open>
  A reader that yields the header and raises on the row after it, as \<open>csv.reader\<close> does
  on a text whose first data row holds a field beyond the field size limit.
\<close>

definition raising_reader :: csv_reader where
  "raising_reader text = (take 1 (fst (plain_reader text)), Some CsvError)"

definition sample_protocols :: protocol_map where
  "sample_protocols = [(''6'', ''TCP''), (''17'', ''UDP'')]"

definition sample_lookup :: lookup_dict where
  "sample_lookup = [((''25'', ''tcp''), ''sv_P1''), ((''443'', ''tcp''), ''sv_P2'')]"

definition sample_line :: string where
  "sample_line =
     ''2 123456789012 eni-0a1b2c3d 10.0.1.201 198.51.100.2 443 49153 6 25 20000 1620140761 1620140821 ACCEPT OK\<newline>''"

definition unknown_protocol_line :: string where
  "unknown_protocol_line =
     ''2 123456789012 eni-4d3c2b1a 192.168.1.100 203.0.113.101 23 49154 250 15 12000 1620140761 1620140821 REJECT OK\<newline>''"

definition short_line :: string where
  "short_line = ''2 123456789012 eni-0a1b2c3d 10.0.1.201 198.51.100.2 443 49153 6\<newline>''"

definition sample_files :: fs where
  "sample_files =
     [''inputfiles/protocol_number_mapping.csv'' \<mapsto>
        ''Decimal,Keyword,Protocol\<newline>6,TCP,Transmission Control\<newline>17,UDP,User Datagram\<newline>'',
      ''inputfiles/lookup_table_refer.csv'' \<mapsto>
        ''dstport,protocol,tag\<newline>25,tcp,sv_P1\<newline>443,TCP,sv_P2\<newline>'',
      ''inputfiles/flow_log_data.txt'' \<mapsto>
        sample_line @ short_line @ unknown_protocol_line @ sample_line]"

text \<open>Two reference tables in which a key occurs twice.\<close>

definition duplicate_files :: fs where
  "duplicate_files =
     [''inputfiles/protocol_number_mapping.csv'' \<mapsto>
        ''Decimal,Keyword\<newline>6,TCP\<newline>6, TCPv2 \<newline>17,UDP\<newline>'',
      ''inputfiles/lookup_table_refer.csv'' \<mapsto>
        ''dstport,protocol,tag\<newline>25,tcp,sv_P1\<newline>25 ,TCP,sv_P9\<newline>443,tcp,sv_P2\<newline>'']"

text \<open>Two reference tables that hold a header without the expected columns and no row.\<close>

definition header_only_files :: fs where
  "header_only_files =
     [''inputfiles/protocol_number_mapping.csv'' \<mapsto> ''Number,Name\<newline>'',
      ''inputfiles/lookup_table_refer.csv'' \<mapsto> ''port,proto,label\<newline>'',
      ''inputfiles/flow_log_data.txt'' \<mapsto> sample_line]"

text \<open>A protocol table without the column \<open>Keyword\<close> and a lookup table without \<open>tag\<close>.\<close>

definition missing_column_files :: fs where
  "missing_column_files =
     [''inputfiles/protocol_number_mapping.csv'' \<mapsto> ''Decimal,Name\<newline>6,TCP\<newline>'',
      ''inputfiles/lookup_table_refer.csv'' \<mapsto> ''dstport,protocol\<newline>\<newline>25,tcp\<newline>'',
      ''inputfiles/flow_log_data.txt'' \<mapsto> sample_line]"

section \<open>Properties\<close>

subsection \<open>Dictionaries and the loop body\<close>

lemma map_of_dict_set: "map_of (dict_set d k v) = (map_of d)(k \<mapsto> v)"
  by (induction d k v rule: dict_set.induct) auto

lemma map_of_increment:
  "map_of (increment d k) = (map_of d)(k \<mapsto> dict_get d k 0 + 1)"
  by (simp add: increment_def defaultdict_getitem_def dict_get_def map_of_dict_set
      split: option.splits)

lemma sum_dict_set:
  "sum_list (map snd (dict_set d k v)) = sum_list (map snd d) - dict_get d k 0 + (v :: int)"
  by (induction d k v rule: dict_set.induct) (auto simp: dict_get_def)

lemma sum_increment: "sum_list (map snd (increment d k)) = sum_list (map snd d) + 1"
  by (simp add: increment_def defaultdict_getitem_def sum_dict_set dict_get_def map_of_dict_set
      split: option.splits)

lemma length_LOG_COLUMN_MAP: "length LOG_COLUMN_MAP = 14"
  by (simp add: LOG_COLUMN_MAP_def)

lemma dstport_column: "dict_getitem LOG_COLUMN_MAP ''dstport'' = Inr 5"
  by (simp add: LOG_COLUMN_MAP_def dict_getitem_def)

lemma protocol_column: "dict_getitem LOG_COLUMN_MAP ''protocol'' = Inr 7"
  by (simp add: LOG_COLUMN_MAP_def dict_getitem_def)

lemma parse_line_valid:
  "length (str_split line) = 14 \<Longrightarrow>
   parse_line lookup_dict protocol_mapping line counts =
     Inr (increment (fst counts)
            (dict_get lookup_dict
               (str_split line ! 5,
                str_lower (dict_get protocol_mapping (str_split line ! 7) ''Undefined''))
               ''Untagged''),
          increment (snd counts)
            (str_split line ! 5,
             str_lower (dict_get protocol_mapping (str_split line ! 7) ''Undefined'')))"
  by (simp add: parse_line_def length_LOG_COLUMN_MAP dstport_column protocol_column
      bind_result_def list_getitem_def Let_def)

lemma parse_line_skip:
  "length (str_split line) \<noteq> 14 \<Longrightarrow> parse_line lookup_dict protocol_mapping line counts = Inr counts"
  by (simp add: parse_line_def length_LOG_COLUMN_MAP Let_def)

lemma lower_Undefined: "str_lower ''Undefined'' = ''undefined''"
  by code_simp

lemma dict_set_twice: "dict_set (dict_set d k v) k w = dict_set d k w"
  by (induction d k v rule: dict_set.induct) auto

lemma increment_eq: "increment d k = dict_set d k (dict_get d k 0 + 1)"
  by (simp add: increment_def defaultdict_getitem_def dict_get_def dict_set_twice
      split: option.splits)

lemma set_dict_set: "set (dict_set d k v) \<subseteq> insert (k, v) (set d)"
  by (induction d k v rule: dict_set.induct) auto

lemma increment_positive:
  assumes "\<forall>(key, count) \<in> set d. 1 \<le> count"
  shows "\<forall>(key, count) \<in> set (increment d k). 1 \<le> count"
proof -
  have "0 \<le> dict_get d k 0"
  proof (cases "map_of d k")
    case None
    then show ?thesis by (simp add: dict_get_def)
  next
    case (Some v)
    then have "(k, v) \<in> set d" by (rule map_of_SomeD)
    with assms have "1 \<le> v" by auto
    with Some show ?thesis by (simp add: dict_get_def)
  qed
  then have "1 \<le> dict_get d k 0 + 1" by simp
  with assms set_dict_set [of d k "dict_get d k 0 + 1"] show ?thesis
    unfolding increment_eq by auto
qed

lemma parse_line_total:
  "\<exists>counts'. parse_line lookup_dict protocol_mapping line counts = Inr counts'"
  by (cases "length (str_split line) = 14") (simp_all add: parse_line_valid parse_line_skip)

lemma parse_lines_sums:
  "\<exists>tc' ppc'. parse_lines lk pm ls (tc, ppc) = Inr (tc', ppc') \<and>
     sum_list (map snd tc') =
       sum_list (map snd tc) + int (length (filter (\<lambda>l. length (str_split l) = 14) ls)) \<and>
     sum_list (map snd ppc') =
       sum_list (map snd ppc) + int (length (filter (\<lambda>l. length (str_split l) = 14) ls))"
proof (induction ls arbitrary: tc ppc)
  case Nil
  show ?case by simp
next
  case (Cons l ls)
  show ?case
  proof (cases "length (str_split l) = 14")
    case True
    then show ?thesis
      using Cons.IH [of "increment tc
            (dict_get lk (str_split l ! 5, str_lower (dict_get pm (str_split l ! 7) ''Undefined''))
               ''Untagged'')"
          "increment ppc (str_split l ! 5, str_lower (dict_get pm (str_split l ! 7) ''Undefined''))"]
      by (auto simp: parse_line_valid bind_result_def sum_increment)
  next
    case False
    then show ?thesis
      using Cons.IH [of tc ppc] by (simp add: parse_line_skip bind_result_def)
  qed
qed

lemma parse_lines_positive:
  assumes "\<forall>(key, count) \<in> set tc. 1 \<le> count" and "\<forall>(key, count) \<in> set ppc. 1 \<le> count"
    and "parse_lines lk pm ls (tc, ppc) = Inr (tc', ppc')"
  shows "(\<forall>(key, count) \<in> set tc'. 1 \<le> count) \<and> (\<forall>(key, count) \<in> set ppc'. 1 \<le> count)"
  using assms
proof (induction ls arbitrary: tc ppc)
  case Nil
  then show ?case by simp
next
  case (Cons l ls)
  show ?case
  proof (cases "length (str_split l) = 14")
    case True
    with Cons.prems(3) have
      "parse_lines lk pm ls (increment tc
            (dict_get lk (str_split l ! 5, str_lower (dict_get pm (str_split l ! 7) ''Undefined''))
               ''Untagged''),
          increment ppc (str_split l ! 5, str_lower (dict_get pm (str_split l ! 7) ''Undefined'')))
        = Inr (tc', ppc')"
      by (simp add: parse_line_valid bind_result_def)
    then show ?thesis
      by (rule Cons.IH [OF increment_positive [OF Cons.prems(1)]
            increment_positive [OF Cons.prems(2)]])
  next
    case False
    with Cons.prems(3) have "parse_lines lk pm ls (tc, ppc) = Inr (tc', ppc')"
      by (simp add: parse_line_skip bind_result_def)
    then show ?thesis by (rule Cons.IH [OF Cons.prems(1,2)])
  qed
qed


text \<open>
  Claim C1. A line of exactly 14 fields is processed without error, and afterwards each
  counter is the counter before with one key bound to its old count (0 when the key was
  absent) plus one: some tag in the tag counts, and in the port/protocol counts the pair
  of the destination port (field 5) and the lower-cased protocol name found for field 7.
  Every other key of either counter keeps its binding.
\<close>

theorem valid_line_increments_one_of_each:
  assumes "length (str_split line) = 14"
  shows "\<exists>tag tc' ppc'.
           parse_line lookup_dict protocol_mapping line (tc, ppc) = Inr (tc', ppc') \<and>
           map_of tc' = (map_of tc)(tag \<mapsto> dict_get tc tag 0 + 1) \<and>
           map_of ppc' =
             (map_of ppc)
               ((str_split line ! 5,
                 str_lower (dict_get protocol_mapping (str_split line ! 7) ''Undefined''))
                \<mapsto> dict_get ppc
                     (str_split line ! 5,
                      str_lower (dict_get protocol_mapping (str_split line ! 7) ''Undefined''))
                     0 + 1)"
proof -
  let ?key = "(str_split line ! 5,
               str_lower (dict_get protocol_mapping (str_split line ! 7) ''Undefined''))"
  let ?tag = "dict_get lookup_dict ?key ''Untagged''"
  have "parse_line lookup_dict protocol_mapping line (tc, ppc) =
          Inr (increment tc ?tag, increment ppc ?key)"
    using assms by (simp add: parse_line_valid)
  moreover have "map_of (increment tc ?tag) = (map_of tc)(?tag \<mapsto> dict_get tc ?tag 0 + 1)"
    by (rule map_of_increment)
  moreover have "map_of (increment ppc ?key) = (map_of ppc)(?key \<mapsto> dict_get ppc ?key 0 + 1)"
    by (rule map_of_increment)
  ultimately show ?thesis by blast
qed

theorem valid_line_increments_one_of_each_witness:
  "length (str_split sample_line) = 14 \<and>
   (\<exists>tag tc' ppc'.
      parse_line sample_lookup sample_protocols sample_line ([(''sv_P2'', 3)], []) = Inr (tc', ppc') \<and>
      map_of tc' = (map_of [(''sv_P2'', 3)])(tag \<mapsto> dict_get [(''sv_P2'', 3)] tag 0 + 1) \<and>
      map_of ppc' =
        (map_of [])
          ((str_split sample_line ! 5,
            str_lower (dict_get sample_protocols (str_split sample_line ! 7) ''Undefined''))
           \<mapsto> dict_get []
                (str_split sample_line ! 5,
                 str_lower (dict_get sample_protocols (str_split sample_line ! 7) ''Undefined''))
                0 + 1))"
proof -
  have fields: "length (str_split sample_line) = 14" by code_simp
  from valid_line_increments_one_of_each [OF fields] fields show ?thesis by blast
qed


text \<open>
  Claim C2. A line whose number of fields is not 14 is processed without error and both
  counters come back as they were.
\<close>

theorem malformed_line_skipped:
  assumes "length (str_split line) \<noteq> 14"
  shows "parse_line lookup_dict protocol_mapping line (tc, ppc) = Inr (tc, ppc)"
  using assms by (rule parse_line_skip)

theorem malformed_line_skipped_witness:
  "length (str_split short_line) \<noteq> 14 \<and>
   parse_line sample_lookup sample_protocols short_line ([(''sv_P2'', 3)], [((''443'', ''tcp''), 3)]) =
     Inr ([(''sv_P2'', 3)], [((''443'', ''tcp''), 3)])"
proof -
  have fields: "length (str_split short_line) \<noteq> 14" by code_simp
  from malformed_line_skipped [OF fields] fields show ?thesis by blast
qed

text \<open>
  Claim C3. Whatever the flow log holds, the classifier returns, and the values of the
  tag counts and of the port/protocol counts both add up to the number of lines of the
  log that have exactly 14 fields.
\<close>

theorem counts_sum_to_valid_lines:
  assumes "files flow_log_file = Some text"
  shows "\<exists>tc ppc.
           parse_flow_logs files flow_log_file lookup_dict protocol_mapping = Inr (tc, ppc) \<and>
           sum_list (map snd tc) =
             int (length (filter (\<lambda>line. length (str_split line) = 14) (file_lines text))) \<and>
           sum_list (map snd ppc) =
             int (length (filter (\<lambda>line. length (str_split line) = 14) (file_lines text)))"
  using assms parse_lines_sums [of lookup_dict protocol_mapping "file_lines text" "[]" "[]"]
  by (simp add: parse_flow_logs_def open_read_def bind_result_def)

theorem counts_sum_to_valid_lines_witness:
  "sample_files ''inputfiles/flow_log_data.txt'' =
     Some (sample_line @ short_line @ unknown_protocol_line @ sample_line) \<and>
   length (filter (\<lambda>line. length (str_split line) = 14)
             (file_lines (sample_line @ short_line @ unknown_protocol_line @ sample_line))) = 3 \<and>
   (\<exists>tc ppc.
      parse_flow_logs sample_files ''inputfiles/flow_log_data.txt'' sample_lookup sample_protocols =
        Inr (tc, ppc) \<and>
      sum_list (map snd tc) = 3 \<and> sum_list (map snd ppc) = 3)"
proof -
  have content: "sample_files ''inputfiles/flow_log_data.txt'' =
      Some (sample_line @ short_line @ unknown_protocol_line @ sample_line)"
    by (simp add: sample_files_def)
  have valid: "length (filter (\<lambda>line. length (str_split line) = 14)
      (file_lines (sample_line @ short_line @ unknown_protocol_line @ sample_line))) = 3"
    by code_simp
  from counts_sum_to_valid_lines
    [where files = sample_files and flow_log_file = "''inputfiles/flow_log_data.txt''"
       and lookup_dict = sample_lookup and protocol_mapping = sample_protocols, OF content] content valid
  show ?thesis by simp
qed

text \<open>
  Claim C4. For a line of 14 fields whose protocol number (field 7) is no key of the
  protocol mapping, the record is counted under the pair (destination port,
  \<open>undefined\<close>), and when that pair is no key of the lookup table it is counted under
  the tag \<open>Untagged\<close>.
\<close>

theorem unknown_protocol_is_undefined:
  assumes "length (str_split line) = 14"
    and "map_of protocol_mapping (str_split line ! 7) = None"
  shows "\<exists>tc' ppc'.
           parse_line lookup_dict protocol_mapping line (tc, ppc) = Inr (tc', ppc') \<and>
           map_of ppc' =
             (map_of ppc)((str_split line ! 5, ''undefined'')
                \<mapsto> dict_get ppc (str_split line ! 5, ''undefined'') 0 + 1) \<and>
           (map_of lookup_dict (str_split line ! 5, ''undefined'') = None \<longrightarrow>
              map_of tc' = (map_of tc)(''Untagged'' \<mapsto> dict_get tc ''Untagged'' 0 + 1))"
proof -
  let ?key = "(str_split line ! 5, ''undefined'')"
  let ?tag = "dict_get lookup_dict ?key ''Untagged''"
  have "dict_get protocol_mapping (str_split line ! 7) ''Undefined'' = ''Undefined''"
    using assms(2) by (simp add: dict_get_def)
  then have "parse_line lookup_dict protocol_mapping line (tc, ppc) =
          Inr (increment tc ?tag, increment ppc ?key)"
    using assms(1) by (simp add: parse_line_valid lower_Undefined)
  moreover have "map_of (increment ppc ?key) = (map_of ppc)(?key \<mapsto> dict_get ppc ?key 0 + 1)"
    by (rule map_of_increment)
  moreover have "map_of lookup_dict ?key = None \<longrightarrow>
      map_of (increment tc ?tag) = (map_of tc)(''Untagged'' \<mapsto> dict_get tc ''Untagged'' 0 + 1)"
    by (simp add: map_of_increment dict_get_def)
  ultimately show ?thesis by simp
qed

theorem unknown_protocol_is_undefined_witness:
  "length (str_split unknown_protocol_line) = 14 \<and>
   map_of sample_protocols (str_split unknown_protocol_line ! 7) = None \<and>
   str_split unknown_protocol_line ! 5 = ''23'' \<and>
   map_of sample_lookup (''23'', ''undefined'') = None \<and>
   (\<exists>tc' ppc'.
      parse_line sample_lookup sample_protocols unknown_protocol_line ([], []) = Inr (tc', ppc') \<and>
      map_of ppc' (''23'', ''undefined'') = Some 1 \<and> map_of tc' ''Untagged'' = Some 1)"
proof -
  have fields: "length (str_split unknown_protocol_line) = 14" by code_simp
  have unknown: "map_of sample_protocols (str_split unknown_protocol_line ! 7) = None"
    by code_simp
  have port: "str_split unknown_protocol_line ! 5 = ''23''" by code_simp
  have no_entry: "map_of sample_lookup (''23'', ''undefined'') = None" by code_simp
  from unknown_protocol_is_undefined [OF fields unknown, of sample_lookup "[]" "[]"]
    fields unknown port no_entry
  show ?thesis by (auto simp: dict_get_def)
qed

lemma str_nat_not_Nil: "str_nat n \<noteq> []"
  by (subst str_nat.simps) simp

lemma digit_char_zero: "d < 10 \<Longrightarrow> digit_char d = CHR ''0'' \<longleftrightarrow> d = 0"
proof -
  assume "d < 10"
  then have "d \<in> {0, 1, 2, 3, 4, 5, 6, 7, 8, 9}" by auto
  then show ?thesis by (auto simp: digit_char_def)
qed

lemma str_nat_zero: "str_nat n = ''0'' \<longleftrightarrow> n = 0"
proof (cases "n < 10")
  case True
  then show ?thesis by (subst str_nat.simps) (simp add: digit_char_zero)
next
  case False
  then show ?thesis by (subst str_nat.simps) (simp add: str_nat_not_Nil)
qed

lemma str_int_zero: "str_int i = ''0'' \<longleftrightarrow> i = 0"
  by (auto simp: str_int_def str_nat_zero)

text \<open>
  Claim C10. After the classifier has processed a flow log, every entry of the tag
  counts and every entry of the port/protocol counts has a count of at least one, so
  the count the report writer prints for an entry is never \<open>0\<close>.
\<close>

theorem counts_at_least_one:
  assumes "files flow_log_file = Some text"
  shows "\<exists>tc ppc.
           parse_flow_logs files flow_log_file lookup_dict protocol_mapping = Inr (tc, ppc) \<and>
           (\<forall>(tag, count) \<in> set tc. 1 \<le> count \<and> str_int count \<noteq> ''0'') \<and>
           (\<forall>(key, count) \<in> set ppc. 1 \<le> count \<and> str_int count \<noteq> ''0'')"
proof -
  from parse_lines_sums [of lookup_dict protocol_mapping "file_lines text" "[]" "[]"]
  obtain tc ppc where
    run: "parse_lines lookup_dict protocol_mapping (file_lines text) ([], []) = Inr (tc, ppc)"
    by blast
  have "(\<forall>(tag, count) \<in> set tc. 1 \<le> count) \<and> (\<forall>(key, count) \<in> set ppc. 1 \<le> count)"
    by (rule parse_lines_positive [OF _ _ run]) simp_all
  then have "(\<forall>(tag, count) \<in> set tc. 1 \<le> count \<and> str_int count \<noteq> ''0'') \<and>
      (\<forall>(key, count) \<in> set ppc. 1 \<le> count \<and> str_int count \<noteq> ''0'')"
    by (auto simp: str_int_zero)
  with run assms show ?thesis
    by (simp add: parse_flow_logs_def open_read_def bind_result_def)
qed

theorem counts_at_least_one_witness:
  "sample_files ''inputfiles/flow_log_data.txt'' =
     Some (sample_line @ short_line @ unknown_protocol_line @ sample_line) \<and>
   (\<exists>tc ppc.
      parse_flow_logs sample_files ''inputfiles/flow_log_data.txt'' sample_lookup sample_protocols =
        Inr (tc, ppc) \<and>
      (\<forall>(tag, count) \<in> set tc. 1 \<le> count \<and> str_int count \<noteq> ''0'') \<and>
      (\<forall>(key, count) \<in> set ppc. 1 \<le> count \<and> str_int count \<noteq> ''0''))"
proof -
  have content: "sample_files ''inputfiles/flow_log_data.txt'' =
      Some (sample_line @ short_line @ unknown_protocol_line @ sample_line)"
    by (simp add: sample_files_def)
  from counts_at_least_one
    [where files = sample_files and flow_log_file = "''inputfiles/flow_log_data.txt''"
       and lookup_dict = sample_lookup and protocol_mapping = sample_protocols, OF content] content
  show ?thesis by simp
qed

subsection \<open>The report\<close>

lemma fold_write_tags:
  "fold (\<lambda>(tag, count) buf. buf @ tag @ '','' @ str_int count @ ''\<newline>'') tag_counts buf =
   buf @ concat (map (\<lambda>(tag, count). tag @ '','' @ str_int count @ ''\<newline>'') tag_counts)"
  by (induction tag_counts arbitrary: buf) (auto simp: case_prod_beta)

lemma fold_write_ports:
  "fold (\<lambda>((port, protocol), count) buf.
           buf @ port @ '','' @ protocol @ '','' @ str_int count @ ''\<newline>'')
     port_protocol_counts buf =
   buf @ concat (map (\<lambda>((port, protocol), count).
                         port @ '','' @ protocol @ '','' @ str_int count @ ''\<newline>'')
                    port_protocol_counts)"
  by (induction port_protocol_counts arbitrary: buf) (auto simp: case_prod_beta)

text \<open>
  Claim C6. For any two count dictionaries the report writer stores, under the output
  path, the heading of the tag section, one line \<open>tag,count\<close> for each entry of the tag
  counts in the order of the dictionary, an empty line, the heading of the port and
  protocol section and one line \<open>port,protocol,count\<close> for each entry of the
  port/protocol counts in the order of the dictionary. For the two dictionaries of the
  specification's example the text is the report shown there.
\<close>

theorem report_format:
  "write_output tag_counts port_protocol_counts output_file files =
     files(output_file \<mapsto>
       ''Tag Counts:\<newline>Tag,Count\<newline>'' @
       concat (map (\<lambda>(tag, count). tag @ '','' @ str_int count @ ''\<newline>'') tag_counts) @
       ''\<newline>Port/Protocol Combination Counts:\<newline>Port,Protocol,Count\<newline>'' @
       concat (map (\<lambda>((port, protocol), count).
                      port @ '','' @ protocol @ '','' @ str_int count @ ''\<newline>'')
                 port_protocol_counts)) \<and>
   write_output [(''sv_P1'', 2), (''Untagged'', 1)] [((''23'', ''tcp''), 2), ((''999'', ''udp''), 1)]
       output_file files output_file =
     Some ''Tag Counts:\<newline>Tag,Count\<newline>sv_P1,2\<newline>Untagged,1\<newline>\<newline>Port/Protocol Combination Counts:\<newline>Port,Protocol,Count\<newline>23,tcp,2\<newline>999,udp,1\<newline>''"
proof
  show "write_output tag_counts port_protocol_counts output_file files =
     files(output_file \<mapsto>
       ''Tag Counts:\<newline>Tag,Count\<newline>'' @
       concat (map (\<lambda>(tag, count). tag @ '','' @ str_int count @ ''\<newline>'') tag_counts) @
       ''\<newline>Port/Protocol Combination Counts:\<newline>Port,Protocol,Count\<newline>'' @
       concat (map (\<lambda>((port, protocol), count).
                      port @ '','' @ protocol @ '','' @ str_int count @ ''\<newline>'')
                 port_protocol_counts))"
    unfolding write_output_def Let_def fold_write_tags fold_write_ports by simp
next
  have two: "str_int 2 = ''2''" and one: "str_int 1 = ''1''"
    by code_simp+
  show "write_output [(''sv_P1'', 2), (''Untagged'', 1)] [((''23'', ''tcp''), 2), ((''999'', ''udp''), 1)]
       output_file files output_file =
     Some ''Tag Counts:\<newline>Tag,Count\<newline>sv_P1,2\<newline>Untagged,1\<newline>\<newline>Port/Protocol Combination Counts:\<newline>Port,Protocol,Count\<newline>23,tcp,2\<newline>999,udp,1\<newline>''"
    by (simp add: write_output_def two one)
qed

subsection \<open>Tags from the lookup table\<close>

text \<open>
  Claim C5, as amended. For a line of 14 fields whose pair of destination port and
  lower-cased protocol name is a key of the lookup table, the record is counted under
  the tag the table gives for that key; the count of \<open>Untagged\<close> stays as it was unless
  that tag is itself \<open>Untagged\<close>.
\<close>

theorem lookup_hit_counts_configured_tag:
  assumes "length (str_split line) = 14"
    and "map_of lookup_dict
           (str_split line ! 5,
            str_lower (dict_get protocol_mapping (str_split line ! 7) ''Undefined'')) = Some tag"
  shows "\<exists>tc' ppc'.
           parse_line lookup_dict protocol_mapping line (tc, ppc) = Inr (tc', ppc') \<and>
           map_of tc' = (map_of tc)(tag \<mapsto> dict_get tc tag 0 + 1) \<and>
           (tag \<noteq> ''Untagged'' \<longrightarrow> map_of tc' ''Untagged'' = map_of tc ''Untagged'')"
proof -
  let ?key = "(str_split line ! 5,
               str_lower (dict_get protocol_mapping (str_split line ! 7) ''Undefined''))"
  have "dict_get lookup_dict ?key ''Untagged'' = tag"
    using assms(2) by (simp add: dict_get_def)
  then have "parse_line lookup_dict protocol_mapping line (tc, ppc) =
          Inr (increment tc tag, increment ppc ?key)"
    using assms(1) by (simp add: parse_line_valid)
  moreover have "map_of (increment tc tag) = (map_of tc)(tag \<mapsto> dict_get tc tag 0 + 1)"
    by (rule map_of_increment)
  ultimately show ?thesis by simp
qed

theorem lookup_hit_counts_configured_tag_witness:
  "length (str_split sample_line) = 14 \<and>
   map_of sample_lookup
     (str_split sample_line ! 5,
      str_lower (dict_get sample_protocols (str_split sample_line ! 7) ''Undefined'')) =
     Some ''sv_P2'' \<and>
   (\<exists>tc' ppc'.
      parse_line sample_lookup sample_protocols sample_line ([(''Untagged'', 4)], []) =
        Inr (tc', ppc') \<and>
      map_of tc' ''sv_P2'' = Some 1 \<and> map_of tc' ''Untagged'' = Some 4)"
proof -
  have fields: "length (str_split sample_line) = 14" by code_simp
  have hit: "map_of sample_lookup
     (str_split sample_line ! 5,
      str_lower (dict_get sample_protocols (str_split sample_line ! 7) ''Undefined'')) =
     Some ''sv_P2''"
    by code_simp
  from lookup_hit_counts_configured_tag [OF fields hit, of "[(''Untagged'', 4)]" "[]"] fields hit
  show ?thesis by (auto simp: dict_get_def)
qed

text \<open>
  The claim as written also says that such a record is never counted under \<open>Untagged\<close>.
  A lookup table may give the tag \<open>Untagged\<close> to a key; the record is then counted
  under it.
\<close>

theorem configured_untagged_counterexample:
  "load_lookup_table_rows
     (DictReader [[''dstport'', ''protocol'', ''tag''], [''443'', ''tcp'', ''Untagged'']]) [] =
     Inr [((''443'', ''tcp''), ''Untagged'')] \<and>
   length (str_split sample_line) = 14 \<and>
   map_of [((''443'', ''tcp''), ''Untagged'')]
     (str_split sample_line ! 5,
      str_lower (dict_get sample_protocols (str_split sample_line ! 7) ''Undefined'')) =
     Some ''Untagged'' \<and>
   parse_line [((''443'', ''tcp''), ''Untagged'')] sample_protocols sample_line ([], []) =
     Inr ([(''Untagged'', 1)], [((''443'', ''tcp''), 1)])"
  by code_simp

subsection \<open>Loading the reference tables\<close>

lemma bind_result_Inr_iff:
  "bind_result r f = Inr y \<longleftrightarrow> (\<exists>x. r = Inr x \<and> f x = Inr y)"
  by (cases r) (simp_all add: bind_result_def)

lemma protocol_row_loaded:
  "load_protocol_mapping_rows (row # rows) m = Inr pm \<longleftrightarrow>
     (\<exists>decimal keyword.
        map_of row ''Decimal'' = Some (Some decimal) \<and>
        map_of row ''Keyword'' = Some (Some keyword) \<and>
        load_protocol_mapping_rows rows (dict_set m (str_strip decimal) (str_strip keyword)) = Inr pm)"
  by (auto simp: bind_result_Inr_iff dict_getitem_def field_strip_def split: option.splits)

lemma protocol_rows_append:
  "load_protocol_mapping_rows (rows @ rows') m =
     bind_result (load_protocol_mapping_rows rows m) (load_protocol_mapping_rows rows')"
  by (induction rows arbitrary: m)
     (auto simp: bind_result_def split: sum.splits)

lemma protocol_rows_other_keys:
  assumes "load_protocol_mapping_rows rows m = Inr pm"
    and "\<forall>later \<in> set rows. \<forall>d. map_of later ''Decimal'' = Some (Some d) \<longrightarrow> str_strip d \<noteq> k"
  shows "map_of pm k = map_of m k"
  using assms
proof (induction rows arbitrary: m)
  case Nil
  then show ?case by simp
next
  case (Cons row rows)
  from Cons.prems(1) obtain decimal keyword where
    d: "map_of row ''Decimal'' = Some (Some decimal)" and
    rest: "load_protocol_mapping_rows rows (dict_set m (str_strip decimal) (str_strip keyword)) = Inr pm"
    unfolding protocol_row_loaded by blast
  from d Cons.prems(2) have "str_strip decimal \<noteq> k" by simp
  moreover from rest Cons.prems(2)
  have "map_of pm k = map_of (dict_set m (str_strip decimal) (str_strip keyword)) k"
    by (intro Cons.IH) simp_all
  ultimately show ?case by (simp add: map_of_dict_set)
qed

lemma protocol_rows_last_wins:
  assumes "load_protocol_mapping_rows (before @ row # after) m = Inr pm"
    and "map_of row ''Decimal'' = Some (Some decimal)"
    and "map_of row ''Keyword'' = Some (Some keyword)"
    and "\<forall>later \<in> set after. \<forall>d. map_of later ''Decimal'' = Some (Some d) \<longrightarrow>
           str_strip d \<noteq> str_strip decimal"
  shows "map_of pm (str_strip decimal) = Some (str_strip keyword)"
proof -
  from assms(1) obtain m' where
    "load_protocol_mapping_rows (row # after) m' = Inr pm"
    unfolding protocol_rows_append bind_result_Inr_iff by blast
  with assms(2,3) have
    "load_protocol_mapping_rows after (dict_set m' (str_strip decimal) (str_strip keyword)) = Inr pm"
    unfolding protocol_row_loaded by simp
  from protocol_rows_other_keys [OF this assms(4)] show ?thesis
    by (simp add: map_of_dict_set)
qed


lemma lookup_row_loaded:
  "load_lookup_table_rows (row # rows) m = Inr lk \<longleftrightarrow>
     (\<exists>dstport protocol tag.
        map_of row ''dstport'' = Some (Some dstport) \<and>
        map_of row ''protocol'' = Some (Some protocol) \<and>
        map_of row ''tag'' = Some (Some tag) \<and>
        load_lookup_table_rows rows
          (dict_set m (str_strip dstport, str_lower (str_strip protocol)) (str_strip tag)) = Inr lk)"
  by (auto simp: bind_result_Inr_iff dict_getitem_def field_strip_def split: option.splits)

lemma lookup_rows_append:
  "load_lookup_table_rows (rows @ rows') m =
     bind_result (load_lookup_table_rows rows m) (load_lookup_table_rows rows')"
  by (induction rows arbitrary: m)
     (auto simp: bind_result_def split: sum.splits)

lemma lookup_rows_other_keys:
  assumes "load_lookup_table_rows rows m = Inr lk"
    and "\<forall>later \<in> set rows. \<forall>p q.
           map_of later ''dstport'' = Some (Some p) \<and> map_of later ''protocol'' = Some (Some q) \<longrightarrow>
           (str_strip p, str_lower (str_strip q)) \<noteq> k"
  shows "map_of lk k = map_of m k"
  using assms
proof (induction rows arbitrary: m)
  case Nil
  then show ?case by simp
next
  case (Cons row rows)
  from Cons.prems(1) obtain dstport protocol tag where
    p: "map_of row ''dstport'' = Some (Some dstport)" and
    q: "map_of row ''protocol'' = Some (Some protocol)" and
    rest: "load_lookup_table_rows rows
          (dict_set m (str_strip dstport, str_lower (str_strip protocol)) (str_strip tag)) = Inr lk"
    unfolding lookup_row_loaded by blast
  from p q Cons.prems(2) have "(str_strip dstport, str_lower (str_strip protocol)) \<noteq> k"
    by simp
  moreover from rest Cons.prems(2)
  have "map_of lk k =
      map_of (dict_set m (str_strip dstport, str_lower (str_strip protocol)) (str_strip tag)) k"
    by (intro Cons.IH) simp_all
  ultimately show ?case by (simp add: map_of_dict_set)
qed

lemma lookup_rows_last_wins:
  assumes "load_lookup_table_rows (before @ row # after) m = Inr lk"
    and "map_of row ''dstport'' = Some (Some dstport)"
    and "map_of row ''protocol'' = Some (Some protocol)"
    and "map_of row ''tag'' = Some (Some tag)"
    and "\<forall>later \<in> set after. \<forall>p q.
           map_of later ''dstport'' = Some (Some p) \<and> map_of later ''protocol'' = Some (Some q) \<longrightarrow>
           (str_strip p, str_lower (str_strip q)) \<noteq> (str_strip dstport, str_lower (str_strip protocol))"
  shows "map_of lk (str_strip dstport, str_lower (str_strip protocol)) = Some (str_strip tag)"
proof -
  from assms(1) obtain m' where
    "load_lookup_table_rows (row # after) m' = Inr lk"
    unfolding lookup_rows_append bind_result_Inr_iff by blast
  with assms(2,3,4) have
    "load_lookup_table_rows after
       (dict_set m' (str_strip dstport, str_lower (str_strip protocol)) (str_strip tag)) = Inr lk"
    unfolding lookup_row_loaded by simp
  from lookup_rows_other_keys [OF this assms(5)] show ?thesis
    by (simp add: map_of_dict_set)
qed

lemma load_protocol_mapping_Inr:
  "load_protocol_mapping reader files csv_file = Inr pm \<longleftrightarrow>
     (\<exists>text. files csv_file = Some text \<and> snd (reader text) = None \<and>
        load_protocol_mapping_rows (DictReader (fst (reader text))) [] = Inr pm)"
  by (auto simp: load_protocol_mapping_def open_read_def bind_result_def reader_end_def
      split: option.splits prod.splits sum.splits)

lemma load_lookup_table_Inr:
  "load_lookup_table reader files lookup_file = Inr lk \<longleftrightarrow>
     (\<exists>text. files lookup_file = Some text \<and> snd (reader text) = None \<and>
        load_lookup_table_rows (DictReader (fst (reader text))) [] = Inr lk)"
  by (auto simp: load_lookup_table_def open_read_def bind_result_def reader_end_def
      split: option.splits prod.splits sum.splits)

text \<open>
  Claim C7. When a reference table loads, a key that several rows give is bound to the
  value of the last of them: for a row with no later row of the same key, the loaded
  mapping binds the row's key to the row's value. The key of a protocol row is its
  trimmed \<open>Decimal\<close> field and its value the trimmed \<open>Keyword\<close> field; the key of a
  lookup row is the pair of its trimmed \<open>dstport\<close> field and its trimmed, lower-cased
  \<open>protocol\<close> field and its value the trimmed \<open>tag\<close> field.
\<close>

theorem last_duplicate_row_wins:
  "(load_protocol_mapping reader files csv_file = Inr protocol_map \<and>
    files csv_file = Some protocol_text \<and>
    DictReader (fst (reader protocol_text)) = before @ row # after \<and>
    map_of row ''Decimal'' = Some (Some decimal) \<and>
    map_of row ''Keyword'' = Some (Some keyword) \<and>
    (\<forall>later \<in> set after. \<forall>d.
       map_of later ''Decimal'' = Some (Some d) \<longrightarrow> str_strip d \<noteq> str_strip decimal)
    \<longrightarrow> map_of protocol_map (str_strip decimal) = Some (str_strip keyword)) \<and>
   (load_lookup_table reader files lookup_file = Inr lookup_dict \<and>
    files lookup_file = Some lookup_text \<and>
    DictReader (fst (reader lookup_text)) = before' @ row' # after' \<and>
    map_of row' ''dstport'' = Some (Some dstport) \<and>
    map_of row' ''protocol'' = Some (Some protocol) \<and>
    map_of row' ''tag'' = Some (Some tag) \<and>
    (\<forall>later \<in> set after'. \<forall>p q.
       map_of later ''dstport'' = Some (Some p) \<and> map_of later ''protocol'' = Some (Some q) \<longrightarrow>
       (str_strip p, str_lower (str_strip q)) \<noteq> (str_strip dstport, str_lower (str_strip protocol)))
    \<longrightarrow> map_of lookup_dict (str_strip dstport, str_lower (str_strip protocol)) =
          Some (str_strip tag))"
proof (intro conjI impI)
  assume a: "load_protocol_mapping reader files csv_file = Inr protocol_map \<and>
    files csv_file = Some protocol_text \<and>
    DictReader (fst (reader protocol_text)) = before @ row # after \<and>
    map_of row ''Decimal'' = Some (Some decimal) \<and>
    map_of row ''Keyword'' = Some (Some keyword) \<and>
    (\<forall>later \<in> set after. \<forall>d.
       map_of later ''Decimal'' = Some (Some d) \<longrightarrow> str_strip d \<noteq> str_strip decimal)"
  then have "load_protocol_mapping_rows (before @ row # after) [] = Inr protocol_map"
    by (auto simp: load_protocol_mapping_Inr)
  with a show "map_of protocol_map (str_strip decimal) = Some (str_strip keyword)"
    by (intro protocol_rows_last_wins [where after = after and row = row]) blast+
next
  assume a: "load_lookup_table reader files lookup_file = Inr lookup_dict \<and>
    files lookup_file = Some lookup_text \<and>
    DictReader (fst (reader lookup_text)) = before' @ row' # after' \<and>
    map_of row' ''dstport'' = Some (Some dstport) \<and>
    map_of row' ''protocol'' = Some (Some protocol) \<and>
    map_of row' ''tag'' = Some (Some tag) \<and>
    (\<forall>later \<in> set after'. \<forall>p q.
       map_of later ''dstport'' = Some (Some p) \<and> map_of later ''protocol'' = Some (Some q) \<longrightarrow>
       (str_strip p, str_lower (str_strip q)) \<noteq> (str_strip dstport, str_lower (str_strip protocol)))"
  then have "load_lookup_table_rows (before' @ row' # after') [] = Inr lookup_dict"
    by (auto simp: load_lookup_table_Inr)
  with a show "map_of lookup_dict (str_strip dstport, str_lower (str_strip protocol)) =
          Some (str_strip tag)"
    by (intro lookup_rows_last_wins [where after = "after'" and row = "row'"]) blast+
qed


theorem last_duplicate_row_wins_witness:
  "load_protocol_mapping plain_reader duplicate_files ''inputfiles/protocol_number_mapping.csv'' =
     Inr [(''6'', ''TCPv2''), (''17'', ''UDP'')] \<and>
   map_of [(''6'', ''TCPv2''), (''17'', ''UDP'')] (str_strip ''6'') = Some (str_strip '' TCPv2 '') \<and>
   load_lookup_table plain_reader duplicate_files ''inputfiles/lookup_table_refer.csv'' =
     Inr [((''25'', ''tcp''), ''sv_P9''), ((''443'', ''tcp''), ''sv_P2'')] \<and>
   map_of [((''25'', ''tcp''), ''sv_P9''), ((''443'', ''tcp''), ''sv_P2'')]
     (str_strip ''25 '', str_lower (str_strip ''TCP'')) = Some (str_strip ''sv_P9'')"
proof -
  let ?ptext = "''Decimal,Keyword\<newline>6,TCP\<newline>6, TCPv2 \<newline>17,UDP\<newline>''"
  let ?ltext = "''dstport,protocol,tag\<newline>25,tcp,sv_P1\<newline>25 ,TCP,sv_P9\<newline>443,tcp,sv_P2\<newline>''"
  let ?prow = "[(''Decimal'', Some ''6''), (''Keyword'', Some '' TCPv2 '')]"
  let ?lrow = "[(''dstport'', Some ''25 ''), (''protocol'', Some ''TCP''), (''tag'', Some ''sv_P9'')]"
  have p_loaded:
    "load_protocol_mapping plain_reader duplicate_files ''inputfiles/protocol_number_mapping.csv'' =
       Inr [(''6'', ''TCPv2''), (''17'', ''UDP'')]"
    by code_simp
  have p_file: "duplicate_files ''inputfiles/protocol_number_mapping.csv'' = Some ?ptext"
    by (simp add: duplicate_files_def)
  have p_rows: "DictReader (fst (plain_reader ?ptext)) =
      [[(''Decimal'', Some ''6''), (''Keyword'', Some ''TCP'')]] @ ?prow #
      [[(''Decimal'', Some ''17''), (''Keyword'', Some ''UDP'')]]"
    by code_simp
  have p_strip: "str_strip ''17'' \<noteq> str_strip ''6''" by code_simp
  have l_loaded:
    "load_lookup_table plain_reader duplicate_files ''inputfiles/lookup_table_refer.csv'' =
       Inr [((''25'', ''tcp''), ''sv_P9''), ((''443'', ''tcp''), ''sv_P2'')]"
    by code_simp
  have l_file: "duplicate_files ''inputfiles/lookup_table_refer.csv'' = Some ?ltext"
    by (simp add: duplicate_files_def)
  have l_rows: "DictReader (fst (plain_reader ?ltext)) =
      [[(''dstport'', Some ''25''), (''protocol'', Some ''tcp''), (''tag'', Some ''sv_P1'')]] @ ?lrow #
      [[(''dstport'', Some ''443''), (''protocol'', Some ''tcp''), (''tag'', Some ''sv_P2'')]]"
    by code_simp
  have l_strip: "(str_strip ''443'', str_lower (str_strip ''tcp'')) \<noteq>
      (str_strip ''25 '', str_lower (str_strip ''TCP''))"
    by code_simp
  note inst = last_duplicate_row_wins
    [where reader = plain_reader and files = duplicate_files
       and csv_file = "''inputfiles/protocol_number_mapping.csv''"
       and protocol_map = "[(''6'', ''TCPv2''), (''17'', ''UDP'')]"
       and protocol_text = ?ptext
       and before = "[[(''Decimal'', Some ''6''), (''Keyword'', Some ''TCP'')]]"
       and row = ?prow
       and after = "[[(''Decimal'', Some ''17''), (''Keyword'', Some ''UDP'')]]"
       and decimal = "''6''" and keyword = "'' TCPv2 ''"
       and lookup_file = "''inputfiles/lookup_table_refer.csv''"
       and lookup_dict = "[((''25'', ''tcp''), ''sv_P9''), ((''443'', ''tcp''), ''sv_P2'')]"
       and lookup_text = ?ltext
       and before' = "[[(''dstport'', Some ''25''), (''protocol'', Some ''tcp''), (''tag'', Some ''sv_P1'')]]"
       and row' = ?lrow
       and after' = "[[(''dstport'', Some ''443''), (''protocol'', Some ''tcp''), (''tag'', Some ''sv_P2'')]]"
       and dstport = "''25 ''" and protocol = "''TCP''" and tag = "''sv_P9''"]
  have "map_of [(''6'', ''TCPv2''), (''17'', ''UDP'')] (str_strip ''6'') = Some (str_strip '' TCPv2 '')"
    using inst [THEN conjunct1] p_loaded p_file p_rows p_strip by simp
  moreover have "map_of [((''25'', ''tcp''), ''sv_P9''), ((''443'', ''tcp''), ''sv_P2'')]
     (str_strip ''25 '', str_lower (str_strip ''TCP'')) = Some (str_strip ''sv_P9'')"
    using inst [THEN conjunct2] l_loaded l_file l_rows l_strip by simp
  ultimately show ?thesis using p_loaded l_loaded by simp
qed

subsection \<open>Reference tables without a required column\<close>

lemma dict_zip_fold_None:
  "map_of d k = None \<Longrightarrow> k \<notin> fst ` set ps \<Longrightarrow>
   map_of (fold (\<lambda>(key, field) d. dict_set d key (Some field)) ps d) k = None"
  by (induction ps arbitrary: d) (auto simp: map_of_dict_set)

lemma restval_fold_None:
  "map_of d k = None \<Longrightarrow> k \<notin> set ks \<Longrightarrow>
   map_of (fold (\<lambda>key d. dict_set d key None) ks d) k = None"
  by (induction ks arbitrary: d) (auto simp: map_of_dict_set)

lemma DictReader_row_missing:
  assumes "k \<notin> set fieldnames"
  shows "map_of (DictReader_row fieldnames row) k = None"
proof -
  from assms have "k \<notin> fst ` set (zip fieldnames row)"
    by (auto dest: set_zip_leftD)
  then have zipped: "map_of (dict_zip fieldnames row) k = None"
    unfolding dict_zip_def by (intro dict_zip_fold_None) simp_all
  from assms have "k \<notin> set (drop (length row) fieldnames)"
    by (auto dest: in_set_dropD)
  with zipped show ?thesis
    by (simp add: DictReader_row_def Let_def restval_fold_None)
qed

lemma DictReader_first_row:
  assumes "\<exists>row \<in> set rest. row \<noteq> []"
  shows "\<exists>row rows. DictReader (fieldnames # rest) = DictReader_row fieldnames row # rows"
proof -
  from assms have "filter (\<lambda>row. row \<noteq> []) rest \<noteq> []"
    by (simp add: filter_empty_conv)
  then obtain row rows where "filter (\<lambda>row. row \<noteq> []) rest = row # rows"
    by (cases "filter (\<lambda>row. row \<noteq> []) rest") auto
  then show ?thesis by (auto simp: DictReader_def)
qed

lemma protocol_row_missing_column:
  assumes "map_of row ''Decimal'' = None \<or> map_of row ''Keyword'' = None"
  shows "\<exists>e. load_protocol_mapping_rows (row # rows) m = Inl e \<and>
           e \<in> {KeyError ''Decimal'', KeyError ''Keyword'', AttributeError}"
  using assms
  by (auto simp: bind_result_def dict_getitem_def field_strip_def split: option.splits)

lemma lookup_row_missing_column:
  assumes "map_of row ''dstport'' = None \<or> map_of row ''protocol'' = None \<or>
           map_of row ''tag'' = None"
  shows "\<exists>e. load_lookup_table_rows (row # rows) m = Inl e \<and>
           e \<in> {KeyError ''dstport'', KeyError ''protocol'', KeyError ''tag'', AttributeError}"
  using assms
  by (auto simp: bind_result_def dict_getitem_def field_strip_def split: option.splits)

lemma main_protocol_failure:
  "load_protocol_mapping reader files ''inputfiles/protocol_number_mapping.csv'' = Inl e \<Longrightarrow>
   main reader files = Inl e"
  by (simp add: main_def bind_result_def)

lemma main_lookup_failure:
  "load_lookup_table reader files ''inputfiles/lookup_table_refer.csv'' = Inl e \<Longrightarrow>
   \<exists>e'. main reader files = Inl e'"
  by (cases "load_protocol_mapping reader files ''inputfiles/protocol_number_mapping.csv''")
     (simp_all add: main_def bind_result_def)


lemma DictReader_no_row:
  assumes "\<not> (\<exists>row \<in> set rest. row \<noteq> [])"
  shows "DictReader (fieldnames # rest) = []"
  using assms by (simp add: DictReader_def filter_empty_conv)

lemma protocol_table_fails:
  assumes "(\<exists>row \<in> set rest. row \<noteq> []) \<or> failure \<noteq> None"
    and "''Decimal'' \<notin> set fieldnames \<or> ''Keyword'' \<notin> set fieldnames"
  shows "\<exists>e. bind_result (load_protocol_mapping_rows (DictReader (fieldnames # rest)) [])
                (reader_end failure) = Inl e \<and>
             (e \<in> {KeyError ''Decimal'', KeyError ''Keyword'', AttributeError} \<or>
              failure = Some e)"
proof (cases "\<exists>row \<in> set rest. row \<noteq> []")
  case True
  then obtain row rows where
    rows: "DictReader (fieldnames # rest) = DictReader_row fieldnames row # rows"
    using DictReader_first_row [of rest fieldnames] by auto
  from assms(2) have "map_of (DictReader_row fieldnames row) ''Decimal'' = None \<or>
      map_of (DictReader_row fieldnames row) ''Keyword'' = None"
    by (auto simp: DictReader_row_missing)
  from protocol_row_missing_column [OF this, of rows "[]"] rows show ?thesis
    by (auto simp: bind_result_def)
next
  case False
  with assms(1) obtain e where "failure = Some e" by auto
  with DictReader_no_row [OF False, of fieldnames] show ?thesis
    by (simp add: bind_result_def reader_end_def)
qed

lemma lookup_table_fails:
  assumes "(\<exists>row \<in> set rest. row \<noteq> []) \<or> failure \<noteq> None"
    and "''dstport'' \<notin> set fieldnames \<or> ''protocol'' \<notin> set fieldnames \<or>
         ''tag'' \<notin> set fieldnames"
  shows "\<exists>e. bind_result (load_lookup_table_rows (DictReader (fieldnames # rest)) [])
                (reader_end failure) = Inl e \<and>
             (e \<in> {KeyError ''dstport'', KeyError ''protocol'', KeyError ''tag'', AttributeError} \<or>
              failure = Some e)"
proof (cases "\<exists>row \<in> set rest. row \<noteq> []")
  case True
  then obtain row rows where
    rows: "DictReader (fieldnames # rest) = DictReader_row fieldnames row # rows"
    using DictReader_first_row [of rest fieldnames] by auto
  from assms(2) have "map_of (DictReader_row fieldnames row) ''dstport'' = None \<or>
      map_of (DictReader_row fieldnames row) ''protocol'' = None \<or>
      map_of (DictReader_row fieldnames row) ''tag'' = None"
    by (auto simp: DictReader_row_missing)
  from lookup_row_missing_column [OF this, of rows "[]"] rows show ?thesis
    by (auto simp: bind_result_def)
next
  case False
  with assms(1) obtain e where "failure = Some e" by auto
  with DictReader_no_row [OF False, of fieldnames] show ?thesis
    by (simp add: bind_result_def reader_end_def)
qed

text \<open>
  Claim C9, as amended. When the header of a reference table lacks a required column
  and the table holds a data row that is not empty (one the reader yields, or one it
  raises on), the loader returns no mapping: it fails with an error of the table's
  content, which is \<open>KeyError\<close> for a missing column, \<open>AttributeError\<close> for a required
  column read before it that has no field in the row, or the exception of the reader.
  The failure of a loader is the failure of the run.
\<close>

theorem missing_column_fails_with_data_row:
  "(files csv_file = Some protocol_text \<and>
    reader protocol_text = (fieldnames # rest, failure) \<and>
    ((\<exists>row \<in> set rest. row \<noteq> []) \<or> failure \<noteq> None) \<and>
    (''Decimal'' \<notin> set fieldnames \<or> ''Keyword'' \<notin> set fieldnames)
    \<longrightarrow> (\<exists>e. load_protocol_mapping reader files csv_file = Inl e \<and>
              (e \<in> {KeyError ''Decimal'', KeyError ''Keyword'', AttributeError} \<or>
               failure = Some e) \<and>
              (csv_file = ''inputfiles/protocol_number_mapping.csv'' \<longrightarrow>
                 main reader files = Inl e))) \<and>
   (files lookup_file = Some lookup_text \<and>
    reader lookup_text = (fieldnames' # rest', failure') \<and>
    ((\<exists>row \<in> set rest'. row \<noteq> []) \<or> failure' \<noteq> None) \<and>
    (''dstport'' \<notin> set fieldnames' \<or> ''protocol'' \<notin> set fieldnames' \<or>
     ''tag'' \<notin> set fieldnames')
    \<longrightarrow> (\<exists>e. load_lookup_table reader files lookup_file = Inl e \<and>
              (e \<in> {KeyError ''dstport'', KeyError ''protocol'', KeyError ''tag'', AttributeError} \<or>
               failure' = Some e) \<and>
              (lookup_file = ''inputfiles/lookup_table_refer.csv'' \<longrightarrow>
                 (\<exists>e'. main reader files = Inl e'))))"
proof (intro conjI impI)
  assume a: "files csv_file = Some protocol_text \<and>
    reader protocol_text = (fieldnames # rest, failure) \<and>
    ((\<exists>row \<in> set rest. row \<noteq> []) \<or> failure \<noteq> None) \<and>
    (''Decimal'' \<notin> set fieldnames \<or> ''Keyword'' \<notin> set fieldnames)"
  then obtain e where
    e: "bind_result (load_protocol_mapping_rows (DictReader (fieldnames # rest)) [])
          (reader_end failure) = Inl e"
      "e \<in> {KeyError ''Decimal'', KeyError ''Keyword'', AttributeError} \<or> failure = Some e"
    using protocol_table_fails [of rest failure fieldnames] by blast
  from a e(1) have failed: "load_protocol_mapping reader files csv_file = Inl e"
    by (simp add: load_protocol_mapping_def open_read_def bind_result_def)
  with e(2) main_protocol_failure [of reader files e]
  show "\<exists>e. load_protocol_mapping reader files csv_file = Inl e \<and>
              (e \<in> {KeyError ''Decimal'', KeyError ''Keyword'', AttributeError} \<or>
               failure = Some e) \<and>
              (csv_file = ''inputfiles/protocol_number_mapping.csv'' \<longrightarrow>
                 main reader files = Inl e)"
    by blast
next
  assume a: "files lookup_file = Some lookup_text \<and>
    reader lookup_text = (fieldnames' # rest', failure') \<and>
    ((\<exists>row \<in> set rest'. row \<noteq> []) \<or> failure' \<noteq> None) \<and>
    (''dstport'' \<notin> set fieldnames' \<or> ''protocol'' \<notin> set fieldnames' \<or>
     ''tag'' \<notin> set fieldnames')"
  then obtain e where
    e: "bind_result (load_lookup_table_rows (DictReader (fieldnames' # rest')) [])
          (reader_end failure') = Inl e"
      "e \<in> {KeyError ''dstport'', KeyError ''protocol'', KeyError ''tag'', AttributeError} \<or>
       failure' = Some e"
    using lookup_table_fails [of rest' failure' fieldnames'] by blast
  from a e(1) have failed: "load_lookup_table reader files lookup_file = Inl e"
    by (simp add: load_lookup_table_def open_read_def bind_result_def)
  with e(2) main_lookup_failure [of reader files e]
  show "\<exists>e. load_lookup_table reader files lookup_file = Inl e \<and>
              (e \<in> {KeyError ''dstport'', KeyError ''protocol'', KeyError ''tag'', AttributeError} \<or>
               failure' = Some e) \<and>
              (lookup_file = ''inputfiles/lookup_table_refer.csv'' \<longrightarrow>
                 (\<exists>e'. main reader files = Inl e'))"
    by blast
qed

text \<open>
  The witness reads the two tables of \<open>missing_column_files\<close> with \<open>plain_reader\<close>, which
  yields their data rows, and the lookup table also with \<open>raising_reader\<close>, which raises
  on its first data row.
\<close>

theorem missing_column_fails_with_data_row_witness:
  "missing_column_files ''inputfiles/protocol_number_mapping.csv'' =
     Some ''Decimal,Name\<newline>6,TCP\<newline>'' \<and>
   plain_reader ''Decimal,Name\<newline>6,TCP\<newline>'' =
     ([''Decimal'', ''Name''] # [[''6'', ''TCP'']], None) \<and>
   ''Keyword'' \<notin> set [''Decimal'', ''Name''] \<and>
   load_protocol_mapping plain_reader missing_column_files
     ''inputfiles/protocol_number_mapping.csv'' = Inl (KeyError ''Keyword'') \<and>
   main plain_reader missing_column_files = Inl (KeyError ''Keyword'') \<and>
   missing_column_files ''inputfiles/lookup_table_refer.csv'' =
     Some ''dstport,protocol\<newline>\<newline>25,tcp\<newline>'' \<and>
   plain_reader ''dstport,protocol\<newline>\<newline>25,tcp\<newline>'' =
     ([''dstport'', ''protocol''] # [[], [''25'', ''tcp'']], None) \<and>
   ''tag'' \<notin> set [''dstport'', ''protocol''] \<and>
   load_lookup_table plain_reader missing_column_files ''inputfiles/lookup_table_refer.csv'' =
     Inl (KeyError ''tag'') \<and>
   raising_reader ''dstport,protocol\<newline>\<newline>25,tcp\<newline>'' =
     ([''dstport'', ''protocol''] # [], Some CsvError) \<and>
   load_lookup_table raising_reader missing_column_files ''inputfiles/lookup_table_refer.csv'' =
     Inl CsvError \<and>
   (\<exists>e. main raising_reader missing_column_files = Inl e)"
proof -
  let ?ptext = "''Decimal,Name\<newline>6,TCP\<newline>''"
  let ?ltext = "''dstport,protocol\<newline>\<newline>25,tcp\<newline>''"
  have p_file: "missing_column_files ''inputfiles/protocol_number_mapping.csv'' = Some ?ptext"
    by (simp add: missing_column_files_def)
  have p_rows: "plain_reader ?ptext = ([''Decimal'', ''Name''] # [[''6'', ''TCP'']], None)"
    by code_simp
  have p_lacks: "''Keyword'' \<notin> set [''Decimal'', ''Name'']" by simp
  have l_file: "missing_column_files ''inputfiles/lookup_table_refer.csv'' = Some ?ltext"
    by (simp add: missing_column_files_def)
  have l_rows: "plain_reader ?ltext = ([''dstport'', ''protocol''] # [[], [''25'', ''tcp'']], None)"
    by code_simp
  have l_lacks: "''tag'' \<notin> set [''dstport'', ''protocol'']" by simp
  have r_rows: "raising_reader ?ltext = ([''dstport'', ''protocol''] # [], Some CsvError)"
    by code_simp
  have p_value: "load_protocol_mapping plain_reader missing_column_files
     ''inputfiles/protocol_number_mapping.csv'' = Inl (KeyError ''Keyword'')"
    by code_simp
  have l_value: "load_lookup_table plain_reader missing_column_files
     ''inputfiles/lookup_table_refer.csv'' = Inl (KeyError ''tag'')"
    by code_simp
  have r_value: "load_lookup_table raising_reader missing_column_files
     ''inputfiles/lookup_table_refer.csv'' = Inl CsvError"
    by code_simp
  note plain = missing_column_fails_with_data_row
    [where reader = plain_reader and files = missing_column_files
       and csv_file = "''inputfiles/protocol_number_mapping.csv''"
       and protocol_text = ?ptext and fieldnames = "[''Decimal'', ''Name'']"
       and rest = "[[''6'', ''TCP'']]" and failure = None
       and lookup_file = "''inputfiles/lookup_table_refer.csv''"
       and lookup_text = ?ltext and fieldnames' = "[''dstport'', ''protocol'']"
       and rest' = "[[], [''25'', ''tcp'']]" and failure' = None]
  note raising = missing_column_fails_with_data_row
    [where reader = raising_reader and files = missing_column_files
       and lookup_file = "''inputfiles/lookup_table_refer.csv''"
       and lookup_text = ?ltext and fieldnames' = "[''dstport'', ''protocol'']"
       and rest' = "[]" and failure' = "Some CsvError"]
  have "main plain_reader missing_column_files = Inl (KeyError ''Keyword'')"
    using plain [THEN conjunct1] p_file p_rows p_lacks p_value by simp
  moreover have "\<exists>e. main raising_reader missing_column_files = Inl e"
    using raising [THEN conjunct2] l_file r_rows l_lacks by auto
  ultimately show ?thesis
    using p_file p_rows p_lacks p_value l_file l_rows l_lacks l_value r_rows r_value by simp
qed

text \<open>
  The claim as written has the loader fail for every table whose header lacks a required
  column. The columns are only read row by row: a table with such a header and no row
  loads as the empty mapping, and the run goes on to write its report.
\<close>

theorem header_without_rows_counterexample:
  "plain_reader ''Number,Name\<newline>'' = ([[''Number'', ''Name'']], None) \<and>
   ''Decimal'' \<notin> set [''Number'', ''Name''] \<and>
   load_protocol_mapping plain_reader header_only_files
     ''inputfiles/protocol_number_mapping.csv'' = Inr [] \<and>
   plain_reader ''port,proto,label\<newline>'' = ([[''port'', ''proto'', ''label'']], None) \<and>
   ''dstport'' \<notin> set [''port'', ''proto'', ''label''] \<and>
   load_lookup_table plain_reader header_only_files ''inputfiles/lookup_table_refer.csv'' = Inr [] \<and>
   main plain_reader header_only_files =
     Inr (header_only_files(''outputfiles/output_counts.txt'' \<mapsto>
       ''Tag Counts:\<newline>Tag,Count\<newline>Untagged,1\<newline>\<newline>Port/Protocol Combination Counts:\<newline>Port,Protocol,Count\<newline>443,undefined,1\<newline>''))"
proof -
  have protocols: "load_protocol_mapping plain_reader header_only_files
     ''inputfiles/protocol_number_mapping.csv'' = Inr []"
    by code_simp
  have lookup: "load_lookup_table plain_reader header_only_files
     ''inputfiles/lookup_table_refer.csv'' = Inr []"
    by code_simp
  have counts: "parse_flow_logs header_only_files ''inputfiles/flow_log_data.txt'' [] [] =
      Inr ([(''Untagged'', 1)], [((''443'', ''undefined''), 1)])"
    by code_simp
  have one: "str_int 1 = ''1''" by code_simp
  have run: "main plain_reader header_only_files =
     Inr (header_only_files(''outputfiles/output_counts.txt'' \<mapsto>
       ''Tag Counts:\<newline>Tag,Count\<newline>Untagged,1\<newline>\<newline>Port/Protocol Combination Counts:\<newline>Port,Protocol,Count\<newline>443,undefined,1\<newline>''))"
    by (simp add: main_def protocols lookup counts bind_result_def write_output_def one)
  have "plain_reader ''Number,Name\<newline>'' = ([[''Number'', ''Name'']], None)"
    and "plain_reader ''port,proto,label\<newline>'' = ([[''port'', ''proto'', ''label'']], None)"
    by code_simp+
  with protocols lookup run show ?thesis by simp
qed

subsection \<open>The pipeline as a function of its input files\<close>

lemma main_agree:
  assumes "\<forall>path \<in> {''inputfiles/protocol_number_mapping.csv'', ''inputfiles/lookup_table_refer.csv'',
             ''inputfiles/flow_log_data.txt''}. files1 path = files2 path"
  shows "main reader files1 = Inl e \<longleftrightarrow> main reader files2 = Inl e"
    and "main reader files1 = Inr files1' \<Longrightarrow>
           \<exists>report. files1' = files1(''outputfiles/output_counts.txt'' \<mapsto> report) \<and>
             main reader files2 = Inr (files2(''outputfiles/output_counts.txt'' \<mapsto> report))"
proof -
  from assms have
    p: "load_protocol_mapping reader files1 ''inputfiles/protocol_number_mapping.csv'' =
        load_protocol_mapping reader files2 ''inputfiles/protocol_number_mapping.csv''" and
    l: "load_lookup_table reader files1 ''inputfiles/lookup_table_refer.csv'' =
        load_lookup_table reader files2 ''inputfiles/lookup_table_refer.csv''" and
    f: "\<And>lk pm. parse_flow_logs files1 ''inputfiles/flow_log_data.txt'' lk pm =
        parse_flow_logs files2 ''inputfiles/flow_log_data.txt'' lk pm"
    by (simp_all add: load_protocol_mapping_def load_lookup_table_def parse_flow_logs_def
        open_read_def)
  show "main reader files1 = Inl e \<longleftrightarrow> main reader files2 = Inl e"
    unfolding main_def Let_def p l f bind_result_def write_output_def
    by (auto split: sum.splits)
  show "\<exists>report. files1' = files1(''outputfiles/output_counts.txt'' \<mapsto> report) \<and>
      main reader files2 = Inr (files2(''outputfiles/output_counts.txt'' \<mapsto> report))"
    if "main reader files1 = Inr files1'"
    using that unfolding main_def Let_def p l f bind_result_def write_output_def
    by (auto split: sum.splits)
qed


text \<open>
  Claim C8. The outcome of a run is determined by the three input files: on two file
  systems that hold the same protocol table, lookup table and flow log, the pipeline
  fails with the same error or writes the same report, whatever else the file systems
  hold (an earlier report included). A second run on the file system the first run left
  behind leaves it as it is.
\<close>

theorem pipeline_deterministic:
  "((\<forall>path \<in> {''inputfiles/protocol_number_mapping.csv'', ''inputfiles/lookup_table_refer.csv'',
               ''inputfiles/flow_log_data.txt''}. files1 path = files2 path) \<longrightarrow>
    map_sum id (\<lambda>files. files ''outputfiles/output_counts.txt'') (main reader files1) =
    map_sum id (\<lambda>files. files ''outputfiles/output_counts.txt'') (main reader files2)) \<and>
   (main reader files = Inr files' \<longrightarrow> main reader files' = Inr files')"
proof (intro conjI impI)
  assume same: "\<forall>path \<in> {''inputfiles/protocol_number_mapping.csv'',
      ''inputfiles/lookup_table_refer.csv'', ''inputfiles/flow_log_data.txt''}.
      files1 path = files2 path"
  show "map_sum id (\<lambda>files. files ''outputfiles/output_counts.txt'') (main reader files1) =
    map_sum id (\<lambda>files. files ''outputfiles/output_counts.txt'') (main reader files2)"
  proof (cases "main reader files1")
    case (Inl e)
    with main_agree(1) [OF same, of reader e] show ?thesis by simp
  next
    case (Inr files1')
    with main_agree(2) [OF same, of reader files1'] show ?thesis by auto
  qed
next
  assume run: "main reader files = Inr files'"
  from main_agree(2) [of files files reader files'] run obtain report where
    files': "files' = files(''outputfiles/output_counts.txt'' \<mapsto> report)"
    by auto
  have "\<forall>path \<in> {''inputfiles/protocol_number_mapping.csv'',
      ''inputfiles/lookup_table_refer.csv'', ''inputfiles/flow_log_data.txt''}.
      files path = files' path"
    by (simp add: files')
  from main_agree(2) [OF this, of reader files'] run obtain report' where
    "files' = files(''outputfiles/output_counts.txt'' \<mapsto> report')"
    "main reader files' = Inr (files'(''outputfiles/output_counts.txt'' \<mapsto> report'))"
    by auto
  then show "main reader files' = Inr files'" by simp
qed

theorem pipeline_deterministic_witness:
  "sample_files ''inputfiles/protocol_number_mapping.csv'' =
     (sample_files(''outputfiles/output_counts.txt'' \<mapsto> ''stale''))
       ''inputfiles/protocol_number_mapping.csv'' \<and>
   sample_files ''inputfiles/lookup_table_refer.csv'' =
     (sample_files(''outputfiles/output_counts.txt'' \<mapsto> ''stale''))
       ''inputfiles/lookup_table_refer.csv'' \<and>
   sample_files ''inputfiles/flow_log_data.txt'' =
     (sample_files(''outputfiles/output_counts.txt'' \<mapsto> ''stale''))
       ''inputfiles/flow_log_data.txt'' \<and>
   map_sum id (\<lambda>files. files ''outputfiles/output_counts.txt'') (main plain_reader sample_files) =
     Inr (Some ''Tag Counts:\<newline>Tag,Count\<newline>sv_P2,2\<newline>Untagged,1\<newline>\<newline>Port/Protocol Combination Counts:\<newline>Port,Protocol,Count\<newline>443,tcp,2\<newline>23,undefined,1\<newline>'') \<and>
   map_sum id (\<lambda>files. files ''outputfiles/output_counts.txt'')
       (main plain_reader (sample_files(''outputfiles/output_counts.txt'' \<mapsto> ''stale''))) =
     Inr (Some ''Tag Counts:\<newline>Tag,Count\<newline>sv_P2,2\<newline>Untagged,1\<newline>\<newline>Port/Protocol Combination Counts:\<newline>Port,Protocol,Count\<newline>443,tcp,2\<newline>23,undefined,1\<newline>'') \<and>
   (\<exists>files'. main plain_reader sample_files = Inr files' \<and> main plain_reader files' = Inr files')"
proof -
  have same: "\<forall>path \<in> {''inputfiles/protocol_number_mapping.csv'',
      ''inputfiles/lookup_table_refer.csv'', ''inputfiles/flow_log_data.txt''}.
      sample_files path = (sample_files(''outputfiles/output_counts.txt'' \<mapsto> ''stale'')) path"
    by simp
  have first: "map_sum id (\<lambda>files. files ''outputfiles/output_counts.txt'')
      (main plain_reader sample_files) =
     Inr (Some ''Tag Counts:\<newline>Tag,Count\<newline>sv_P2,2\<newline>Untagged,1\<newline>\<newline>Port/Protocol Combination Counts:\<newline>Port,Protocol,Count\<newline>443,tcp,2\<newline>23,undefined,1\<newline>'')"
    by code_simp
  note inst = pipeline_deterministic
    [where reader = plain_reader and ?files1.0 = sample_files
       and ?files2.0 = "sample_files(''outputfiles/output_counts.txt'' \<mapsto> ''stale'')"
       and files = sample_files]
  from first obtain files' where run: "main plain_reader sample_files = Inr files'"
    by (cases "main plain_reader sample_files") auto
  from inst [where files' = files', THEN conjunct2] run
  have again: "main plain_reader files' = Inr files'" by simp
  from inst [where files' = files', THEN conjunct1] same first run again
  show ?thesis by simp
qed

end
